theory Spec2Isabelle
  imports Main "HOL-Library.Word"
begin

section \<open>PKCE generator (utils/pkce.js: src/utils/pkce.js, lines 1 to 42)\<close>

text \<open>
  A Node \<open>Buffer\<close> is a list of bytes. \<open>buffer.toString('base64')\<close> is the standard
  base64 encoding with padding: three bytes give four characters of the alphabet below,
  a trailing group of one or two bytes is padded with \<open>=\<close>.
\<close>

type_synonym byte = "8 word"

definition base64_alphabet :: string where
  "base64_alphabet =
     ''ABCDEFGHIJKLMNOPQRSTUVWXYZabcdefghijklmnopqrstuvwxyz0123456789+/''"

definition b64char :: "nat \<Rightarrow> char" where
  "b64char i = base64_alphabet ! i"

definition sextet1 :: "byte \<Rightarrow> nat" where
  "sextet1 a = unat a div 4"

definition sextet2 :: "byte \<Rightarrow> byte \<Rightarrow> nat" where
  "sextet2 a b = (unat a mod 4) * 16 + unat b div 16"

definition sextet3 :: "byte \<Rightarrow> byte \<Rightarrow> nat" where
  "sextet3 b c = (unat b mod 16) * 4 + unat c div 64"

definition sextet4 :: "byte \<Rightarrow> nat" where
  "sextet4 c = unat c mod 64"

fun toString_base64 :: "byte list \<Rightarrow> string" where
  "toString_base64 [] = []"
| "toString_base64 [a] =
     [b64char (sextet1 a), b64char (sextet2 a 0), CHR ''='', CHR ''='']"
| "toString_base64 [a, b] =
     [b64char (sextet1 a), b64char (sextet2 a b), b64char (sextet3 b 0), CHR ''='']"
| "toString_base64 (a # b # c # rest) =
     [b64char (sextet1 a), b64char (sextet2 a b), b64char (sextet3 b c), b64char (sextet4 c)]
       @ toString_base64 rest"

text \<open>\<open>str.replace(/c/g, d)\<close> with a one-character pattern and replacement.\<close>

definition replace_char :: "char \<Rightarrow> char \<Rightarrow> string \<Rightarrow> string" where
  "replace_char c d str = map (\<lambda>x. if x = c then d else x) str"

text \<open>\<open>str.replace(/c/g, '')\<close>: every occurrence is dropped.\<close>

definition remove_char :: "char \<Rightarrow> string \<Rightarrow> string" where
  "remove_char c str = filter (\<lambda>x. x \<noteq> c) str"

definition base64urlEncode :: "byte list \<Rightarrow> string" where
  "base64urlEncode buffer =
     remove_char (CHR ''='')
       (replace_char (CHR ''/'') (CHR ''_'')
         (replace_char (CHR ''+'') (CHR ''-'') (toString_base64 buffer)))"

text \<open>
  \<open>generateCodeVerifier\<close> encodes \<open>crypto.randomBytes(32)\<close>; the bytes drawn are the
  argument of the model.
\<close>

definition generateCodeVerifier :: "byte list \<Rightarrow> string" where
  "generateCodeVerifier buffer = base64urlEncode buffer"

definition base64url_alphabet :: string where
  "base64url_alphabet =
     ''ABCDEFGHIJKLMNOPQRSTUVWXYZabcdefghijklmnopqrstuvwxyz0123456789-_''"

subsection \<open>The verifier is URL-safe and 43 characters long\<close>

lemma b64char_mem: "i < 64 \<Longrightarrow> b64char i \<in> set base64_alphabet"
  unfolding b64char_def by (rule nth_mem) (simp add: base64_alphabet_def)

lemma unat_byte_less: "unat (a :: byte) < 256"
  using unsigned_less [of a] by simp

lemma sextet1_less: "sextet1 a < 64"
  unfolding sextet1_def using unat_byte_less [of a] by simp

lemma sextet2_less: "sextet2 a b < 64"
proof -
  have "unat a mod 4 \<le> 3" by simp
  moreover have "unat b div 16 \<le> 15" using unat_byte_less [of b] by simp
  ultimately show ?thesis unfolding sextet2_def by linarith
qed

lemma sextet3_less: "sextet3 b c < 64"
proof -
  have "unat b mod 16 \<le> 15" by simp
  moreover have "unat c div 64 \<le> 3" using unat_byte_less [of c] by simp
  ultimately show ?thesis unfolding sextet3_def by linarith
qed

lemma sextet4_less: "sextet4 c < 64"
  unfolding sextet4_def by simp

text \<open>The three replacements of \<open>base64urlEncode\<close>, seen on one character.\<close>

definition url_subst :: "char \<Rightarrow> char" where
  "url_subst x = (if (if x = CHR ''+'' then CHR ''-'' else x) = CHR ''/'' then CHR ''_''
     else (if x = CHR ''+'' then CHR ''-'' else x))"

lemma alphabet_subst:
  assumes "x \<in> set base64_alphabet"
  shows "x \<noteq> CHR ''=''" and "url_subst x \<in> set base64url_alphabet" and "url_subst x \<noteq> CHR ''=''"
  using assms unfolding base64_alphabet_def base64url_alphabet_def url_subst_def by auto


lemma url_subst_eq_pad: "url_subst x = CHR ''='' \<longleftrightarrow> x = CHR ''=''"
  by (simp add: url_subst_def)

lemma url_chain_map:
  "remove_char (CHR ''='') (replace_char (CHR ''/'') (CHR ''_'')
       (replace_char (CHR ''+'') (CHR ''-'') str)) =
     map url_subst (filter (\<lambda>x. x \<noteq> CHR ''='') str)"
  by (induction str) (simp_all add: remove_char_def replace_char_def url_subst_def)

lemma base64urlEncode_map:
  "base64urlEncode buffer =
     map url_subst (filter (\<lambda>x. x \<noteq> CHR ''='') (toString_base64 buffer))"
  by (simp add: base64urlEncode_def url_chain_map)

lemma b64char_not_pad: "i < 64 \<Longrightarrow> b64char i \<noteq> CHR ''=''"
  using alphabet_subst(1) b64char_mem by blast

lemmas sextet_less = sextet1_less sextet2_less sextet3_less sextet4_less

lemma unpadded_set:
  "set (filter (\<lambda>x. x \<noteq> CHR ''='') (toString_base64 buffer)) \<subseteq> set base64_alphabet"
  by (induction buffer rule: toString_base64.induct)
     (simp_all add: b64char_mem b64char_not_pad sextet_less)

lemma unpadded_length:
  "length (filter (\<lambda>x. x \<noteq> CHR ''='') (toString_base64 buffer)) = (4 * length buffer + 2) div 3"
  by (induction buffer rule: toString_base64.induct)
     (simp_all add: b64char_not_pad sextet_less)

lemma base64urlEncode_length: "length (base64urlEncode buffer) = (4 * length buffer + 2) div 3"
  by (simp add: base64urlEncode_map unpadded_length)

lemma base64urlEncode_set: "set (base64urlEncode buffer) \<subseteq> set base64url_alphabet"
  using unpadded_set [of buffer] alphabet_subst(2)
  by (auto simp: base64urlEncode_map)

lemma url_alphabet_excludes:
  "CHR ''+'' \<notin> set base64url_alphabet" "CHR ''/'' \<notin> set base64url_alphabet"
  "CHR ''='' \<notin> set base64url_alphabet"
  by (simp_all add: base64url_alphabet_def)

text \<open>
  C9: whatever 32 bytes the randomness source returns, the verifier built from them has
  43 characters, all taken from the URL-safe base64 alphabet (letters, digits,
  \<open>-\<close> and \<open>_\<close>), and none of them is \<open>+\<close>, \<open>/\<close> or the padding \<open>=\<close>.
\<close>

theorem generateCodeVerifier_urlsafe:
  assumes "length buffer = 32"
  shows "length (generateCodeVerifier buffer) = 43
       \<and> set (generateCodeVerifier buffer) \<subseteq> set base64url_alphabet
       \<and> CHR ''+'' \<notin> set (generateCodeVerifier buffer)
       \<and> CHR ''/'' \<notin> set (generateCodeVerifier buffer)
       \<and> CHR ''='' \<notin> set (generateCodeVerifier buffer)"
proof -
  have len: "length (generateCodeVerifier buffer) = 43"
    using assms by (simp add: generateCodeVerifier_def base64urlEncode_length)
  have sub: "set (generateCodeVerifier buffer) \<subseteq> set base64url_alphabet"
    by (simp add: generateCodeVerifier_def base64urlEncode_set)
  from sub url_alphabet_excludes have
    "CHR ''+'' \<notin> set (generateCodeVerifier buffer)"
    "CHR ''/'' \<notin> set (generateCodeVerifier buffer)"
    "CHR ''='' \<notin> set (generateCodeVerifier buffer)"
    by blast+
  with len sub show ?thesis by simp
qed

theorem generateCodeVerifier_urlsafe_witness:
  "length (replicate 32 (255 :: byte)) = 32
   \<and> generateCodeVerifier (replicate 32 (255 :: byte)) = ''__________________________________________8''
   \<and> length (generateCodeVerifier (replicate 32 (255 :: byte))) = 43
   \<and> set (generateCodeVerifier (replicate 32 (255 :: byte))) \<subseteq> set base64url_alphabet
   \<and> CHR ''='' \<notin> set (generateCodeVerifier (replicate 32 (255 :: byte)))"
proof -
  have v: "generateCodeVerifier (replicate 32 (255 :: byte)) = ''__________________________________________8''"
    by code_simp
  show ?thesis using generateCodeVerifier_urlsafe [of "replicate 32 (255 :: byte)"] v by simp
qed

section \<open>Verifier store (utils/pkce.js: src/utils/pkce.js, lines 44 to 100)\<close>

text \<open>
  \<open>verifierStore\<close> is a process-wide \<open>Map\<close> from the state parameter to
  \<open>{ verifier, createdAt }\<close>. The model passes the map explicitly and returns it
  updated. \<open>Date.now()\<close> is milliseconds since the epoch; every reading of the clock
  is an argument of the function that reads it.
\<close>

record entry =
  verifier :: string
  createdAt :: int

type_synonym verifierStore = "string \<rightharpoonup> entry"

definition VERIFIER_TTL :: int where
  "VERIFIER_TTL = 30 * 60 * 1000"

text \<open>
  \<open>cleanupExpiredVerifiers\<close> reads the clock once and visits every entry of the map,
  deleting the entry it is at when \<open>now - entry.createdAt > VERIFIER_TTL\<close>.
\<close>

definition cleanupExpiredVerifiers :: "int \<Rightarrow> verifierStore \<Rightarrow> verifierStore" where
  "cleanupExpiredVerifiers now store =
     (\<lambda>state. case store state of
        None \<Rightarrow> None
      | Some entry \<Rightarrow> if now - createdAt entry > VERIFIER_TTL then None else Some entry)"

text \<open>
  \<open>storeVerifier\<close> sweeps first (clock reading \<open>now_sweep\<close>, taken inside
  \<open>cleanupExpiredVerifiers\<close>) and then sets the entry, stamped with a second reading
  \<open>now_set\<close>.
\<close>

definition storeVerifier ::
  "int \<Rightarrow> int \<Rightarrow> string \<Rightarrow> string \<Rightarrow> verifierStore \<Rightarrow> verifierStore" where
  "storeVerifier now_sweep now_set state v store =
     (cleanupExpiredVerifiers now_sweep store)
       (state \<mapsto> \<lparr>verifier = v, createdAt = now_set\<rparr>)"

text \<open>
  \<open>getVerifier\<close> returns the verifier or \<open>null\<close> (\<open>None\<close>), and the map as it
  leaves it. The entry is deleted before its age is looked at.
\<close>

definition getVerifier :: "int \<Rightarrow> string \<Rightarrow> verifierStore \<Rightarrow> string option \<times> verifierStore" where
  "getVerifier now state store =
     (case store state of
        None \<Rightarrow> (None, store)
      | Some entry \<Rightarrow>
          (let store' = store(state := None) in
           if now - createdAt entry > VERIFIER_TTL then (None, store')
           else (Some (verifier entry), store')))"

text \<open>An entry is older than the TTL at the instant \<open>now\<close>.\<close>

definition expired :: "int \<Rightarrow> entry \<Rightarrow> bool" where
  "expired now e = (now - createdAt e > VERIFIER_TTL)"

subsection \<open>One-time use and expiry\<close>

lemma cleanup_keeps_fresh:
  "cleanupExpiredVerifiers now store state = Some e \<longleftrightarrow> store state = Some e \<and> \<not> expired now e"
  by (auto simp: cleanupExpiredVerifiers_def expired_def split: option.splits)

lemma storeVerifier_apply:
  "storeVerifier now_sweep now_set state v store state' =
     (if state' = state then Some \<lparr>verifier = v, createdAt = now_set\<rparr>
      else cleanupExpiredVerifiers now_sweep store state')"
  by (simp add: storeVerifier_def)

lemma storeVerifier_others_fresh:
  assumes "storeVerifier now_sweep now_set state v store state' = Some e" and "state' \<noteq> state"
  shows "store state' = Some e \<and> \<not> expired now_sweep e"
  using assms by (simp add: storeVerifier_apply cleanup_keeps_fresh)

text \<open>
  C4: after \<open>put(s, v)\<close>, a \<open>take(s)\<close> at a time when no more than the TTL has passed
  since the entry was stamped returns exactly \<open>v\<close>, and a second \<open>take(s)\<close> right after
  it (at any time) returns not found: the first take removed the entry.
\<close>

theorem put_take_once:
  assumes "now - now_set \<le> VERIFIER_TTL"
  shows "fst (getVerifier now s (storeVerifier now_sweep now_set s v store)) = Some v
       \<and> fst (getVerifier now' s (snd (getVerifier now s (storeVerifier now_sweep now_set s v store)))) = None
       \<and> snd (getVerifier now s (storeVerifier now_sweep now_set s v store)) s = None"
  using assms by (simp add: getVerifier_def storeVerifier_apply Let_def)

theorem put_take_once_witness:
  "(1000 + 1800000) - 1000 \<le> VERIFIER_TTL
   \<and> fst (getVerifier 1801000 ''s1'' (storeVerifier 1000 1000 ''s1'' ''v1'' Map.empty)) = Some ''v1''
   \<and> fst (getVerifier 1801000 ''s1''
        (snd (getVerifier 1801000 ''s1'' (storeVerifier 1000 1000 ''s1'' ''v1'' Map.empty)))) = None"
  using put_take_once [of 1801000 1000 "''s1''" 1000 "''v1''" Map.empty 1801000]
  by (simp add: VERIFIER_TTL_def)

text \<open>
  C5: a lookup of a state whose entry is older than the TTL returns not found, and the
  entry is gone from the store afterwards (every other entry is untouched).
\<close>

theorem take_expired_purges:
  assumes "store s = Some e" and "now - createdAt e > VERIFIER_TTL"
  shows "getVerifier now s store = (None, store(s := None))"
  using assms by (simp add: getVerifier_def Let_def)

theorem take_expired_purges_witness:
  "[''s1'' \<mapsto> \<lparr>verifier = ''v1'', createdAt = 1000\<rparr>] ''s1'' = Some \<lparr>verifier = ''v1'', createdAt = 1000\<rparr>
   \<and> 1801001 - createdAt \<lparr>verifier = ''v1'', createdAt = 1000\<rparr> > VERIFIER_TTL
   \<and> fst (getVerifier 1801001 ''s1'' [''s1'' \<mapsto> \<lparr>verifier = ''v1'', createdAt = 1000\<rparr>]) = None
   \<and> snd (getVerifier 1801001 ''s1'' [''s1'' \<mapsto> \<lparr>verifier = ''v1'', createdAt = 1000\<rparr>]) ''s1'' = None"
  using take_expired_purges [of "[''s1'' \<mapsto> \<lparr>verifier = ''v1'', createdAt = 1000\<rparr>]" "''s1''"
      "\<lparr>verifier = ''v1'', createdAt = 1000\<rparr>" 1801001]
  by (simp add: VERIFIER_TTL_def)

lemma storeVerifier_lookup:
  "storeVerifier now_sweep now_set s v store s' = Some e \<longleftrightarrow>
     (if s' = s then e = \<lparr>verifier = v, createdAt = now_set\<rparr>
      else store s' = Some e \<and> \<not> now_sweep - createdAt e > VERIFIER_TTL)"
  by (auto simp: storeVerifier_apply cleanup_keeps_fresh expired_def)

text \<open>
  C6, as amended: \<open>put(s, v)\<close> reads the clock twice. It removes every entry that is
  older than the TTL (30 minutes) at the first reading, the one of the sweep, and then
  sets \<open>{verifier: v, createdAt: t}\<close> for \<open>s\<close>, where \<open>t\<close> is the second reading. So
  when put returns, the entry of \<open>s\<close> is the new one, every other entry is an entry the
  store held before that was not older than the TTL at the first reading, and no entry is
  older than the TTL at the second reading by more than the time that passed between the
  two readings; when the two readings are the same instant, no entry is older than the
  TTL at that instant.
\<close>

theorem put_sweeps_at_first_reading:
  "VERIFIER_TTL = 1800000
   \<and> storeVerifier now_sweep now_set s v store s = Some \<lparr>verifier = v, createdAt = now_set\<rparr>
   \<and> (\<forall>s' e. s' \<noteq> s \<longrightarrow>
         (storeVerifier now_sweep now_set s v store s' = Some e \<longleftrightarrow>
            store s' = Some e \<and> now_sweep - createdAt e \<le> VERIFIER_TTL))
   \<and> (\<forall>s' e. storeVerifier now_sweep now_set s v store s' = Some e \<longrightarrow>
         now_set - createdAt e \<le> VERIFIER_TTL + max 0 (now_set - now_sweep))
   \<and> (now_sweep = now_set \<longrightarrow>
        (\<forall>s' e. storeVerifier now_sweep now_set s v store s' = Some e \<longrightarrow>
           now_set - createdAt e \<le> VERIFIER_TTL))"
proof -
  have ttl: "VERIFIER_TTL = 1800000"
    by (simp add: VERIFIER_TTL_def)
  have new: "storeVerifier now_sweep now_set s v store s = Some \<lparr>verifier = v, createdAt = now_set\<rparr>"
    by (simp add: storeVerifier_lookup)
  have others: "\<forall>s' e. s' \<noteq> s \<longrightarrow>
         (storeVerifier now_sweep now_set s v store s' = Some e \<longleftrightarrow>
            store s' = Some e \<and> now_sweep - createdAt e \<le> VERIFIER_TTL)"
    by (auto simp: storeVerifier_lookup)
  have age: "now_set - createdAt e \<le> VERIFIER_TTL + max 0 (now_set - now_sweep)"
    if "storeVerifier now_sweep now_set s v store s' = Some e" for s' e
  proof (cases "s' = s")
    case True
    with that have "createdAt e = now_set" by (simp add: storeVerifier_lookup)
    then show ?thesis by (simp add: ttl)
  next
    case False
    with that have "now_sweep - createdAt e \<le> VERIFIER_TTL" by (simp add: storeVerifier_lookup)
    then show ?thesis by linarith
  qed
  have same: "now_sweep = now_set \<longrightarrow>
        (\<forall>s' e. storeVerifier now_sweep now_set s v store s' = Some e \<longrightarrow>
           now_set - createdAt e \<le> VERIFIER_TTL)"
    using age by fastforce
  from ttl new others age same show ?thesis by blast
qed

theorem put_sweeps_at_first_reading_witness:
  "storeVerifier 1801001 1801001 ''s2'' ''v2''
      [''s1'' \<mapsto> \<lparr>verifier = ''v1'', createdAt = 1000\<rparr>] ''s1'' = None
   \<and> storeVerifier 1801001 1801001 ''s2'' ''v2''
      [''s1'' \<mapsto> \<lparr>verifier = ''v1'', createdAt = 1000\<rparr>] ''s2''
       = Some \<lparr>verifier = ''v2'', createdAt = 1801001\<rparr>
   \<and> storeVerifier 1801000 1801001 ''s2'' ''v2''
      [''s1'' \<mapsto> \<lparr>verifier = ''v1'', createdAt = 1000\<rparr>] ''s1''
       = Some \<lparr>verifier = ''v1'', createdAt = 1000\<rparr>
   \<and> (1801001 :: int) - createdAt \<lparr>verifier = ''v1'', createdAt = 1000\<rparr>
       \<le> VERIFIER_TTL + max 0 (1801001 - 1801000)"
proof -
  let ?store = "[''s1'' \<mapsto> \<lparr>verifier = ''v1'', createdAt = 1000\<rparr>]"
  have gone: "storeVerifier 1801001 1801001 ''s2'' ''v2'' ?store ''s1'' = None"
    by (simp add: storeVerifier_apply cleanupExpiredVerifiers_def VERIFIER_TTL_def)
  have kept: "storeVerifier 1801000 1801001 ''s2'' ''v2'' ?store ''s1''
       = Some \<lparr>verifier = ''v1'', createdAt = 1000\<rparr>"
    by (simp add: storeVerifier_apply cleanupExpiredVerifiers_def VERIFIER_TTL_def)
  from put_sweeps_at_first_reading [of 1801001 1801001 "''s2''" "''v2''" ?store]
  have new: "storeVerifier 1801001 1801001 ''s2'' ''v2'' ?store ''s2''
       = Some \<lparr>verifier = ''v2'', createdAt = 1801001\<rparr>"
    by blast
  from put_sweeps_at_first_reading [of 1801000 1801001 "''s2''" "''v2''" ?store] kept
  have "(1801001 :: int) - createdAt \<lparr>verifier = ''v1'', createdAt = 1000\<rparr>
       \<le> VERIFIER_TTL + max 0 (1801001 - 1801000)"
    by blast
  with gone new kept show ?thesis by blast
qed

text \<open>
  C6 as the specification states it fails when the clock ticks between the two readings:
  an entry stamped at 1000 is exactly 30 minutes old at the sweep (reading 1801000) and
  stays; the new entry is stamped one millisecond later (reading 1801001), and at that
  instant, when put returns, the store holds an entry older than the TTL.
\<close>

theorem put_tick_leaves_expired_entry:
  "storeVerifier 1801000 1801001 ''s2'' ''v2''
      [''s1'' \<mapsto> \<lparr>verifier = ''v1'', createdAt = 1000\<rparr>] ''s1''
       = Some \<lparr>verifier = ''v1'', createdAt = 1000\<rparr>
   \<and> storeVerifier 1801000 1801001 ''s2'' ''v2''
      [''s1'' \<mapsto> \<lparr>verifier = ''v1'', createdAt = 1000\<rparr>] ''s2''
       = Some \<lparr>verifier = ''v2'', createdAt = 1801001\<rparr>
   \<and> 1801001 - createdAt \<lparr>verifier = ''v1'', createdAt = 1000\<rparr> > VERIFIER_TTL
   \<and> expired 1801001 \<lparr>verifier = ''v1'', createdAt = 1000\<rparr>"
  by (simp add: storeVerifier_apply cleanupExpiredVerifiers_def expired_def VERIFIER_TTL_def)

section \<open>Credential store (db.js: src/unnamed/part_000, lines 1 to 106)\<close>

text \<open>
  The table \<open>salesforce_tokens\<close>: one record per row, the columns under their SQL
  names (the \<open>SERIAL PRIMARY KEY\<close> column \<open>id\<close> is \<open>row_id\<close>, since \<open>id\<close> is the
  identity function of HOL). The three token columns are \<open>TEXT NOT NULL\<close>; both
  timestamps default to \<open>CURRENT_TIMESTAMP\<close>, which is an argument \<open>now\<close> of the
  statement that reads it. The database is the list of rows together with the next value
  of the sequence behind \<open>id\<close>, which \<open>DELETE\<close> does not reset.
\<close>

record row =
  row_id :: nat
  access_token :: string
  refresh_token :: string
  instance_url :: string
  created_at :: int
  updated_at :: int

record database =
  rows :: "row list"
  next_id :: nat

text \<open>\<open>DELETE FROM salesforce_tokens\<close>\<close>

definition delete_all :: "database \<Rightarrow> database" where
  "delete_all d = d\<lparr>rows := []\<rparr>"

text \<open>
  \<open>INSERT INTO salesforce_tokens (access_token, refresh_token, instance_url)
  VALUES ($1, $2, $3) RETURNING id\<close>
\<close>

text \<open>
  The column \<open>id\<close> is \<open>SERIAL\<close>: a 32-bit integer fed by a sequence whose greatest
  value is 2147483647. Asked for a value beyond it, \<open>nextval\<close> raises an error and the
  \<open>INSERT\<close> inserts nothing.
\<close>

definition SERIAL_MAX :: nat where
  "SERIAL_MAX = 2147483647"

datatype db_error = SequenceExhausted

definition insert_returning_id ::
  "int \<Rightarrow> string \<Rightarrow> string \<Rightarrow> string \<Rightarrow> database \<Rightarrow> (db_error + nat) \<times> database" where
  "insert_returning_id now a r u d =
     (if next_id d > SERIAL_MAX then (Inl SequenceExhausted, d)
      else
        (Inr (next_id d),
         d\<lparr>rows := rows d @
              [\<lparr>row_id = next_id d, access_token = a, refresh_token = r, instance_url = u,
                created_at = now, updated_at = now\<rparr>],
           next_id := Suc (next_id d)\<rparr>))"

text \<open>
  \<open>storeTokens\<close> runs the \<open>DELETE\<close> and the \<open>INSERT\<close> as two statements, with no
  transaction around them: when the \<open>INSERT\<close> fails, the function throws and the rows
  stay deleted.
\<close>

definition storeTokens ::
  "int \<Rightarrow> string \<Rightarrow> string \<Rightarrow> string \<Rightarrow> database \<Rightarrow> (db_error + nat) \<times> database" where
  "storeTokens now accessToken refreshToken instanceUrl d =
     insert_returning_id now accessToken refreshToken instanceUrl (delete_all d)"

text \<open>\<open>SELECT * FROM salesforce_tokens ORDER BY id DESC LIMIT 1\<close>: the row of greatest id.\<close>

fun select_latest :: "row list \<Rightarrow> row option" where
  "select_latest [] = None"
| "select_latest (r # rs) =
     (case select_latest rs of
        None \<Rightarrow> Some r
      | Some m \<Rightarrow> if row_id r < row_id m then Some m else Some r)"

text \<open>The object \<open>getTokens\<close> returns; its field \<open>id\<close> is \<open>token_id\<close>.\<close>

record tokens =
  accessToken :: string
  refreshToken :: string
  instanceUrl :: string
  token_id :: nat

definition getTokens :: "database \<Rightarrow> tokens option" where
  "getTokens d =
     (case select_latest (rows d) of
        None \<Rightarrow> None
      | Some r \<Rightarrow>
          Some \<lparr>accessToken = access_token r, refreshToken = refresh_token r,
                instanceUrl = instance_url r, token_id = row_id r\<rparr>)"

text \<open>
  \<open>UPDATE salesforce_tokens SET access_token = $1, updated_at = CURRENT_TIMESTAMP
  WHERE id = $2\<close>
\<close>

definition updateAccessToken :: "int \<Rightarrow> nat \<Rightarrow> string \<Rightarrow> database \<Rightarrow> database" where
  "updateAccessToken now i newAccessToken d =
     d\<lparr>rows := map (\<lambda>r. if row_id r = i
                           then r\<lparr>access_token := newAccessToken, updated_at := now\<rparr>
                           else r) (rows d)\<rparr>"

definition deleteTokens :: "database \<Rightarrow> database" where
  "deleteTokens d = delete_all d"


subsection \<open>Replace leaves one credential\<close>



lemma storeTokens_returns:
  "next_id d \<le> SERIAL_MAX \<Longrightarrow> fst (storeTokens now a r u d) = Inr (next_id d)"
  by (simp add: storeTokens_def insert_returning_id_def delete_all_def)





subsection \<open>The frame of \<open>updateAccessToken\<close>\<close>

lemma updateAccessToken_length: "length (rows (updateAccessToken now i a d)) = length (rows d)"
  by (simp add: updateAccessToken_def)

lemma updateAccessToken_nth:
  "k < length (rows d) \<Longrightarrow>
   rows (updateAccessToken now i a d) ! k =
     (if row_id (rows d ! k) = i then (rows d ! k)\<lparr>access_token := a, updated_at := now\<rparr>
      else rows d ! k)"
  by (simp add: updateAccessToken_def)

text \<open>
  C8: \<open>updateAccessToken(id, newAccessToken)\<close> keeps the number and order of the rows
  and the sequence; a row whose id is \<open>id\<close> gets the new access token and the current
  timestamp as \<open>updated_at\<close> and keeps its id, refresh token, instance URL and
  \<open>created_at\<close>; every other row is unchanged.
\<close>

theorem updateAccessToken_frame:
  "length (rows (updateAccessToken now i a d)) = length (rows d)
   \<and> next_id (updateAccessToken now i a d) = next_id d
   \<and> (\<forall>k < length (rows d).
        (row_id (rows d ! k) = i \<longrightarrow>
           rows (updateAccessToken now i a d) ! k =
             (rows d ! k)\<lparr>access_token := a, updated_at := now\<rparr>)
      \<and> (row_id (rows d ! k) \<noteq> i \<longrightarrow> rows (updateAccessToken now i a d) ! k = rows d ! k)
      \<and> row_id (rows (updateAccessToken now i a d) ! k) = row_id (rows d ! k)
      \<and> refresh_token (rows (updateAccessToken now i a d) ! k) = refresh_token (rows d ! k)
      \<and> instance_url (rows (updateAccessToken now i a d) ! k) = instance_url (rows d ! k)
      \<and> created_at (rows (updateAccessToken now i a d) ! k) = created_at (rows d ! k))"
  by (simp add: updateAccessToken_length updateAccessToken_nth) (simp add: updateAccessToken_def)

theorem updateAccessToken_frame_witness:
  "length (rows (updateAccessToken 99 2 ''new''
      \<lparr>rows = [\<lparr>row_id = 1, access_token = ''a1'', refresh_token = ''r1'', instance_url = ''u1'',
                 created_at = 5, updated_at = 5\<rparr>,
               \<lparr>row_id = 2, access_token = ''a2'', refresh_token = ''r2'', instance_url = ''u2'',
                 created_at = 7, updated_at = 7\<rparr>], next_id = 3\<rparr>)) = 2
   \<and> rows (updateAccessToken 99 2 ''new''
      \<lparr>rows = [\<lparr>row_id = 1, access_token = ''a1'', refresh_token = ''r1'', instance_url = ''u1'',
                 created_at = 5, updated_at = 5\<rparr>,
               \<lparr>row_id = 2, access_token = ''a2'', refresh_token = ''r2'', instance_url = ''u2'',
                 created_at = 7, updated_at = 7\<rparr>], next_id = 3\<rparr>) ! 0 =
      \<lparr>row_id = 1, access_token = ''a1'', refresh_token = ''r1'', instance_url = ''u1'',
        created_at = 5, updated_at = 5\<rparr>
   \<and> rows (updateAccessToken 99 2 ''new''
      \<lparr>rows = [\<lparr>row_id = 1, access_token = ''a1'', refresh_token = ''r1'', instance_url = ''u1'',
                 created_at = 5, updated_at = 5\<rparr>,
               \<lparr>row_id = 2, access_token = ''a2'', refresh_token = ''r2'', instance_url = ''u2'',
                 created_at = 7, updated_at = 7\<rparr>], next_id = 3\<rparr>) ! 1 =
      \<lparr>row_id = 2, access_token = ''new'', refresh_token = ''r2'', instance_url = ''u2'',
        created_at = 7, updated_at = 99\<rparr>"
  using updateAccessToken_frame [of 99 2 "''new''"
      "\<lparr>rows = [\<lparr>row_id = 1, access_token = ''a1'', refresh_token = ''r1'', instance_url = ''u1'',
                 created_at = 5, updated_at = 5\<rparr>,
               \<lparr>row_id = 2, access_token = ''a2'', refresh_token = ''r2'', instance_url = ''u2'',
                 created_at = 7, updated_at = 7\<rparr>], next_id = 3\<rparr>"]
  by simp

section \<open>Token refresher and API gateway (utils/salesforce.js: src/utils/pkce.js, lines 101 to 211)\<close>

subsection \<open>Values, errors and the HTTP environment\<close>

text \<open>
  JSON values, as \<open>JSON.parse\<close> produces them and \<open>JSON.stringify\<close> consumes them.
  \<open>truthy\<close> is the truth value JavaScript gives a value in a condition.
\<close>

datatype json =
  JNull | JBool bool | JNum int | JStr string | JArr "json list" | JObj "(string \<times> json) list"

fun truthy :: "json \<Rightarrow> bool" where
  "truthy JNull = False"
| "truthy (JBool b) = b"
| "truthy (JNum n) = (n \<noteq> 0)"
| "truthy (JStr s) = (s \<noteq> [])"
| "truthy (JArr xs) = True"
| "truthy (JObj kvs) = True"

text \<open>
  The body of a response is text that either parses as JSON, and is then given by the
  parsed value, or does not. A response has a status and a body; \<open>response.ok\<close> is a
  status from 200 to 299.
\<close>

datatype 'a parsed = NotJson string | Json 'a

record 'a response =
  status :: nat
  body :: "'a parsed"

definition ok :: "'a response \<Rightarrow> bool" where
  "ok r = (200 \<le> status r \<and> status r \<le> 299)"

text \<open>
  What the source reads of the token endpoint's JSON: four optional string fields
  (\<open>None\<close>: the field is absent, \<open>undefined\<close> in JavaScript).
\<close>

record token_data =
  data_access_token :: "string option"
  data_instance_url :: "string option"
  data_error_description :: "string option"
  data_error :: "string option"

text \<open>
  The errors the two functions throw or let through. \<open>TokenRefreshFailed d\<close> is
  \<open>refreshAccessToken\<close>'s "Token refresh failed: d"; \<open>TokenRefreshFailedBecause e\<close>
  is the error of the \<open>catch\<close> block of \<open>salesforceApiCall\<close>, whose message wraps the
  message of the caught error \<open>e\<close>; \<open>SalesforceApiError s d\<close> is
  "Salesforce API error (s): d". The others come from below: \<open>fetch\<close> rejecting,
  \<open>response.json()\<close> rejecting, a property read on \<open>null\<close>, and the \<open>NOT NULL\<close>
  constraint of the table.
\<close>

datatype error =
    NoTokensFound
  | NotConnected
  | TokenRefreshFailed "string option"
  | TokenRefreshFailedBecause error
  | SalesforceApiError nat json
  | FetchError
  | InvalidJson
  | TypeError
  | NotNullViolation

definition response_json :: "'a response \<Rightarrow> error + 'a" where
  "response_json r = (case body r of NotJson text \<Rightarrow> Inl InvalidJson | Json j \<Rightarrow> Inr j)"

text \<open>The environment constants of the module.\<close>

record config =
  SF_CLIENT_ID :: string
  SF_CLIENT_SECRET :: string
  SF_LOGIN_URL :: string

text \<open>
  An API request as \<open>makeRequest\<close> builds it (the \<open>method\<close> of the options is
  \<open>http_method\<close>; \<open>request_body\<close> is the JSON value whose
  serialisation is sent, \<open>None\<close> when \<open>options.body\<close> is not set), and the form-encoded
  request to the token endpoint.
\<close>

record request =
  url :: string
  http_method :: string
  authorization :: string
  content_type :: string
  request_body :: "json option"

record token_request =
  token_url :: string
  form_grant_type :: string
  form_client_id :: string
  form_client_secret :: string
  form_refresh_token :: string

text \<open>
  The world the two functions run in: the database, its clock, the responses the API and
  the token endpoint will give to the next requests, in order, and the trace of what has
  been called and sent so far.
\<close>

datatype event =
    CallGetTokens
  | CallRefreshAccessToken
  | CallUpdateAccessToken nat "string option"
  | Fetch request
  | FetchToken token_request

record world =
  db :: database
  clock :: int
  api_replies :: "json response list"
  token_replies :: "token_data response list"
  trace :: "event list"

definition record_event :: "event \<Rightarrow> world \<Rightarrow> world" where
  "record_event e w = w\<lparr>trace := trace w @ [e]\<rparr>"

text \<open>\<open>fetch\<close> sends the request and takes the next response; with none left it rejects.\<close>

definition fetch :: "request \<Rightarrow> world \<Rightarrow> (error + json response) \<times> world" where
  "fetch req w =
     (case api_replies w of
        [] \<Rightarrow> (Inl FetchError, record_event (Fetch req) w)
      | r # rs \<Rightarrow> (Inr r, record_event (Fetch req) (w\<lparr>api_replies := rs\<rparr>)))"

definition fetch_token :: "token_request \<Rightarrow> world \<Rightarrow> (error + token_data response) \<times> world" where
  "fetch_token req w =
     (case token_replies w of
        [] \<Rightarrow> (Inl FetchError, record_event (FetchToken req) w)
      | r # rs \<Rightarrow> (Inr r, record_event (FetchToken req) (w\<lparr>token_replies := rs\<rparr>)))"

text \<open>The two database calls of the module, on the world.\<close>

definition call_getTokens :: "world \<Rightarrow> tokens option \<times> world" where
  "call_getTokens w = (getTokens (db w), record_event CallGetTokens w)"

text \<open>
  \<open>updateAccessToken(id, v)\<close> with \<open>v\<close> undefined sends \<open>NULL\<close> for a \<open>NOT NULL\<close>
  column: when a row has that id the statement fails and changes nothing; when no row has
  it, the statement updates no row and succeeds.
\<close>

definition call_updateAccessToken :: "nat \<Rightarrow> string option \<Rightarrow> world \<Rightarrow> (error + unit) \<times> world" where
  "call_updateAccessToken i v w =
     (let w' = record_event (CallUpdateAccessToken i v) w in
      case v of
        None \<Rightarrow>
          if list_ex (\<lambda>r. row_id r = i) (rows (db w')) then (Inl NotNullViolation, w')
          else (Inr (), w')
      | Some a \<Rightarrow> (Inr (), w'\<lparr>db := updateAccessToken (clock w') i a (db w')\<rparr>))"

text \<open>\<open>a || b\<close> on optional strings: \<open>a\<close> when it is a non-empty string, else \<open>b\<close>.\<close>

definition js_or :: "string option \<Rightarrow> string option \<Rightarrow> string option" where
  "js_or a b = (case a of None \<Rightarrow> b | Some s \<Rightarrow> if s \<noteq> [] then Some s else b)"

definition or_else :: "string option \<Rightarrow> string \<Rightarrow> string" where
  "or_else a b = (case a of None \<Rightarrow> b | Some s \<Rightarrow> if s \<noteq> [] then s else b)"

subsection \<open>\<open>refreshAccessToken\<close>\<close>

text \<open>
  The object \<open>refreshAccessToken\<close> returns: \<open>data.access_token\<close> as it was read, and
  \<open>data.instance_url || tokens.instanceUrl\<close>.
\<close>

record new_tokens =
  new_accessToken :: "string option"
  new_instanceUrl :: string

definition refreshAccessToken :: "config \<Rightarrow> world \<Rightarrow> (error + new_tokens) \<times> world" where
  "refreshAccessToken cfg w0 =
     (case call_getTokens (record_event CallRefreshAccessToken w0) of
        (None, w1) \<Rightarrow> (Inl NoTokensFound, w1)
      | (Some tokens, w1) \<Rightarrow>
          (case fetch_token
                  \<lparr>token_url = SF_LOGIN_URL cfg @ ''/services/oauth2/token'',
                   form_grant_type = ''refresh_token'',
                   form_client_id = SF_CLIENT_ID cfg,
                   form_client_secret = SF_CLIENT_SECRET cfg,
                   form_refresh_token = refreshToken tokens\<rparr> w1 of
             (Inl e, w2) \<Rightarrow> (Inl e, w2)
           | (Inr response, w2) \<Rightarrow>
               if \<not> ok response then
                 (case response_json response of
                    Inl e \<Rightarrow> (Inl e, w2)
                  | Inr errorData \<Rightarrow>
                      (Inl (TokenRefreshFailed
                              (js_or (data_error_description errorData) (data_error errorData))),
                       w2))
               else
                 (case response_json response of
                    Inl e \<Rightarrow> (Inl e, w2)
                  | Inr data \<Rightarrow>
                      (case call_updateAccessToken (token_id tokens) (data_access_token data) w2 of
                         (Inl e, w3) \<Rightarrow> (Inl e, w3)
                       | (Inr u, w3) \<Rightarrow>
                           (Inr \<lparr>new_accessToken = data_access_token data,
                                 new_instanceUrl =
                                   or_else (data_instance_url data) (instanceUrl tokens)\<rparr>,
                            w3)))))"

subsection \<open>\<open>salesforceApiCall\<close>\<close>

text \<open>
  The \<open>options\<close> and \<open>url\<close> of \<open>makeRequest\<close>. The argument \<open>body\<close> is \<open>None\<close> for
  \<open>null\<close>; \<open>body && ...\<close> asks for a truthy body.
\<close>

definition body_truthy :: "json option \<Rightarrow> bool" where
  "body_truthy b = (case b of None \<Rightarrow> False | Some j \<Rightarrow> truthy j)"

definition request_options :: "string \<Rightarrow> string \<Rightarrow> json option \<Rightarrow> string \<Rightarrow> string \<Rightarrow> request" where
  "request_options endpoint meth b accessTok instUrl =
     \<lparr>url = instUrl @ endpoint,
      http_method = meth,
      authorization = ''Bearer '' @ accessTok,
      content_type = ''application/json'',
      request_body =
        (if body_truthy b \<and> (meth = ''POST'' \<or> meth = ''PATCH'') then b else None)\<rparr>"

definition makeRequest ::
  "string \<Rightarrow> string \<Rightarrow> json option \<Rightarrow> string \<Rightarrow> string \<Rightarrow> world
     \<Rightarrow> (error + json response) \<times> world" where
  "makeRequest endpoint meth b accessTok instUrl w =
     fetch (request_options endpoint meth b accessTok instUrl) w"

text \<open>
  The end of the function, on the response it is left with: an error carrying the status
  and the body (parsed, or \<open>{ message: errorText }\<close> when it does not parse) unless the
  response is ok, else \<open>response.json()\<close>.
\<close>

definition errorData_of :: "json response \<Rightarrow> json" where
  "errorData_of r =
     (case body r of Json j \<Rightarrow> j | NotJson errorText \<Rightarrow> JObj [(''message'', JStr errorText)])"

definition finish :: "json response \<Rightarrow> error + json" where
  "finish r =
     (if \<not> ok r then Inl (SalesforceApiError (status r) (errorData_of r))
      else response_json r)"

definition salesforceApiCall ::
  "config \<Rightarrow> string \<Rightarrow> string \<Rightarrow> json option \<Rightarrow> world \<Rightarrow> (error + json) \<times> world" where
  "salesforceApiCall cfg endpoint meth b w =
     (case call_getTokens w of
        (None, w1) \<Rightarrow> (Inl NotConnected, w1)
      | (Some tokens, w1) \<Rightarrow>
          (case makeRequest endpoint meth b (accessToken tokens) (instanceUrl tokens) w1 of
             (Inl e, w2) \<Rightarrow> (Inl e, w2)
           | (Inr response, w2) \<Rightarrow>
               if status response = 401 then
                 (case refreshAccessToken cfg w2 of
                    (Inl e, w3) \<Rightarrow> (Inl (TokenRefreshFailedBecause e), w3)
                  | (Inr newTokens, w3) \<Rightarrow>
                      (case call_getTokens w3 of
                         (None, w4) \<Rightarrow> (Inl (TokenRefreshFailedBecause TypeError), w4)
                       | (Some tokens', w4) \<Rightarrow>
                           (case makeRequest endpoint meth b
                                   (accessToken tokens') (instanceUrl tokens') w4 of
                              (Inl e, w5) \<Rightarrow> (Inl (TokenRefreshFailedBecause e), w5)
                            | (Inr response', w5) \<Rightarrow> (finish response', w5))))
               else (finish response, w2)))"

text \<open>The events a call added to the trace.\<close>

definition events_of :: "world \<Rightarrow> world \<Rightarrow> event list" where
  "events_of w w' = drop (length (trace w)) (trace w')"

fun requests_of :: "event list \<Rightarrow> request list" where
  "requests_of [] = []"
| "requests_of (Fetch q # es) = q # requests_of es"
| "requests_of (e # es) = requests_of es"


subsection \<open>What one refresh does\<close>

lemma select_latest_map:
  assumes "\<And>r. row_id (f r) = row_id r"
  shows "select_latest (map f rs) = map_option f (select_latest rs)"
  by (induction rs) (auto simp: assms split: option.splits)

lemma select_latest_mem: "select_latest rs = Some m \<Longrightarrow> m \<in> set rs"
  by (induction rs arbitrary: m) (auto split: option.splits if_splits)

lemma getTokens_updateAccessToken:
  assumes "getTokens d = Some tk"
  shows "getTokens (updateAccessToken now (token_id tk) a d) = Some (tk\<lparr>accessToken := a\<rparr>)"
proof -
  let ?f = "\<lambda>r. if row_id r = token_id tk then r\<lparr>access_token := a, updated_at := now\<rparr> else r"
  from assms obtain m where m: "select_latest (rows d) = Some m"
    and tk: "tk = \<lparr>accessToken = access_token m, refreshToken = refresh_token m,
                    instanceUrl = instance_url m, token_id = row_id m\<rparr>"
    by (auto simp: getTokens_def split: option.splits)
  have "select_latest (map ?f (rows d)) = map_option ?f (select_latest (rows d))"
    by (rule select_latest_map) simp
  with m tk show ?thesis
    by (simp add: getTokens_def updateAccessToken_def)
qed

lemma refreshAccessToken_success:
  assumes "getTokens (db w) = Some tk"
    and "token_replies w = t # ts" and "ok t" and "body t = Json data"
    and "data_access_token data = Some a"
  shows "refreshAccessToken cfg w =
     (Inr \<lparr>new_accessToken = Some a,
           new_instanceUrl = or_else (data_instance_url data) (instanceUrl tk)\<rparr>,
      w\<lparr>db := updateAccessToken (clock w) (token_id tk) a (db w),
        token_replies := ts,
        trace := trace w @
          [CallRefreshAccessToken, CallGetTokens,
           FetchToken \<lparr>token_url = SF_LOGIN_URL cfg @ ''/services/oauth2/token'',
                       form_grant_type = ''refresh_token'',
                       form_client_id = SF_CLIENT_ID cfg,
                       form_client_secret = SF_CLIENT_SECRET cfg,
                       form_refresh_token = refreshToken tk\<rparr>,
           CallUpdateAccessToken (token_id tk) (Some a)]\<rparr>)"
  using assms
  by (simp add: refreshAccessToken_def call_getTokens_def record_event_def fetch_token_def
      response_json_def call_updateAccessToken_def Let_def)

lemma getTokens_row_exists:
  assumes "getTokens d = Some tk"
  shows "list_ex (\<lambda>r. row_id r = token_id tk) (rows d)"
proof -
  from assms obtain m where "select_latest (rows d) = Some m" and "token_id tk = row_id m"
    by (auto simp: getTokens_def split: option.splits)
  then show ?thesis
    using select_latest_mem [of "rows d" m] by (auto simp: list_ex_iff)
qed

lemma refreshAccessToken_Inr:
  assumes "fst (refreshAccessToken cfg w) = Inr nt"
  shows "\<exists>tk t ts data a. getTokens (db w) = Some tk \<and> token_replies w = t # ts \<and> ok t
           \<and> body t = Json data \<and> data_access_token data = Some a"
  using assms
  by (auto simp: refreshAccessToken_def call_getTokens_def record_event_def fetch_token_def
      response_json_def call_updateAccessToken_def Let_def
      split: option.splits list.splits if_splits parsed.splits
      dest: getTokens_row_exists)

lemma events_of_append: "trace w' = trace w @ es \<Longrightarrow> events_of w w' = es"
  by (simp add: events_of_def)

lemma requests_of_append: "requests_of (xs @ ys) = requests_of xs @ requests_of ys"
  by (induction xs rule: requests_of.induct) simp_all

lemma refreshAccessToken_trace:
  "\<exists>es. trace (snd (refreshAccessToken cfg w)) = trace w @ es
        \<and> count_list es CallRefreshAccessToken = 1 \<and> requests_of es = []"
  by (auto simp: refreshAccessToken_def call_getTokens_def record_event_def fetch_token_def
      response_json_def call_updateAccessToken_def Let_def
      split: option.splits list.splits parsed.splits if_splits)

lemma fetch_trace: "trace (snd (fetch q w)) = trace w @ [Fetch q]"
  by (simp add: fetch_def record_event_def split: list.splits)

lemma makeRequest_trace:
  "trace (snd (makeRequest endpoint meth b a u w)) = trace w @ [Fetch (request_options endpoint meth b a u)]"
  by (simp add: makeRequest_def fetch_trace)

lemma call_getTokens_trace: "trace (snd (call_getTokens w)) = trace w @ [CallGetTokens]"
  by (simp add: call_getTokens_def record_event_def)

text \<open>
  What \<open>makeRequest\<close> fixes of a request from the arguments of the call, whatever the
  credential: the method, the content type and the body.
\<close>

definition built_for :: "string \<Rightarrow> json option \<Rightarrow> request \<Rightarrow> bool" where
  "built_for meth b q =
     (http_method q = meth
      \<and> content_type q = ''application/json''
      \<and> request_body q =
          (if body_truthy b \<and> (meth = ''POST'' \<or> meth = ''PATCH'') then b else None))"

lemma built_for_request_options: "built_for meth b (request_options endpoint meth b a u)"
  by (simp add: built_for_def request_options_def)

lemma built_for_body:
  assumes "built_for meth b q"
  shows "request_body q =
     (if body_truthy b \<and> (meth = ''POST'' \<or> meth = ''PATCH'') then b else None)"
  using assms by (simp add: built_for_def)

lemma salesforceApiCall_trace:
  "\<exists>es. trace (snd (salesforceApiCall cfg endpoint meth b w)) = trace w @ es
        \<and> count_list es CallRefreshAccessToken \<le> 1
        \<and> list_all (built_for meth b) (requests_of es)"
proof (cases "getTokens (db w)")
  case None
  then show ?thesis
    by (simp add: salesforceApiCall_def call_getTokens_def record_event_def)
next
  case (Some tk)
  define w1 where "w1 = snd (call_getTokens w)"
  define q1 where "q1 = request_options endpoint meth b (accessToken tk) (instanceUrl tk)"
  define w2 where "w2 = snd (makeRequest endpoint meth b (accessToken tk) (instanceUrl tk) w1)"
  have t2: "trace w2 = trace w @ [CallGetTokens, Fetch q1]"
    by (simp add: w2_def w1_def q1_def makeRequest_trace call_getTokens_trace)
  have b1: "built_for meth b q1"
    by (simp add: q1_def built_for_request_options)
  have cg: "call_getTokens w = (Some tk, w1)"
    by (simp add: w1_def call_getTokens_def Some)
  show ?thesis
  proof (cases "fst (makeRequest endpoint meth b (accessToken tk) (instanceUrl tk) w1)")
    case (Inl e)
    then have "makeRequest endpoint meth b (accessToken tk) (instanceUrl tk) w1 = (Inl e, w2)"
      by (simp add: w2_def prod_eq_iff)
    then have "salesforceApiCall cfg endpoint meth b w = (Inl e, w2)"
      by (simp add: salesforceApiCall_def cg)
    with t2 b1 show ?thesis by simp
  next
    case (Inr r1)
    then have mr: "makeRequest endpoint meth b (accessToken tk) (instanceUrl tk) w1 = (Inr r1, w2)"
      by (simp add: w2_def prod_eq_iff)
    show ?thesis
    proof (cases "status r1 = 401")
      case False
      then have "salesforceApiCall cfg endpoint meth b w = (finish r1, w2)"
        by (simp add: salesforceApiCall_def cg mr)
      with t2 b1 show ?thesis by simp
    next
      case True
      define w3 where "w3 = snd (refreshAccessToken cfg w2)"
      from refreshAccessToken_trace [of cfg w2] obtain es where
        t3: "trace w3 = trace w2 @ es" and c3: "count_list es CallRefreshAccessToken = 1"
        and q3: "requests_of es = []"
        unfolding w3_def by blast
      show ?thesis
      proof (cases "fst (refreshAccessToken cfg w2)")
        case (Inl e)
        then have "refreshAccessToken cfg w2 = (Inl e, w3)"
          by (simp add: w3_def prod_eq_iff)
        then have "salesforceApiCall cfg endpoint meth b w = (Inl (TokenRefreshFailedBecause e), w3)"
          by (simp add: salesforceApiCall_def cg mr True)
        with t2 t3 c3 q3 b1 show ?thesis by (simp add: requests_of_append)
      next
        case (Inr nt)
        then have rf: "refreshAccessToken cfg w2 = (Inr nt, w3)"
          by (simp add: w3_def prod_eq_iff)
        define w4 where "w4 = snd (call_getTokens w3)"
        have t4: "trace w4 = trace w3 @ [CallGetTokens]"
          by (simp add: w4_def call_getTokens_trace)
        show ?thesis
        proof (cases "getTokens (db w3)")
          case None
          then have "call_getTokens w3 = (None, w4)"
            by (simp add: w4_def call_getTokens_def)
          then have "salesforceApiCall cfg endpoint meth b w =
              (Inl (TokenRefreshFailedBecause TypeError), w4)"
            by (simp add: salesforceApiCall_def cg mr True rf)
          with t2 t3 t4 c3 q3 b1 show ?thesis by (simp add: requests_of_append)
        next
          case (Some tk')
          define q2 where "q2 = request_options endpoint meth b (accessToken tk') (instanceUrl tk')"
          define w5 where
            "w5 = snd (makeRequest endpoint meth b (accessToken tk') (instanceUrl tk') w4)"
          have t5: "trace w5 = trace w4 @ [Fetch q2]"
            by (simp add: w5_def q2_def makeRequest_trace)
          have b2: "built_for meth b q2"
            by (simp add: q2_def built_for_request_options)
          have cg': "call_getTokens w3 = (Some tk', w4)"
            by (simp add: w4_def call_getTokens_def Some)
          obtain x where "makeRequest endpoint meth b (accessToken tk') (instanceUrl tk') w4 = (x, w5)"
            by (simp add: w5_def prod_eq_iff)
          then have "snd (salesforceApiCall cfg endpoint meth b w) = w5"
            by (cases x) (simp_all add: salesforceApiCall_def cg mr True rf cg')
          with t2 t3 t4 t5 c3 q3 b1 b2 show ?thesis by (simp add: requests_of_append)
        qed
      qed
    qed
  qed
qed


subsection \<open>A 401, one refresh, one retry\<close>

lemma salesforceApiCall_retry:
  assumes tk: "getTokens (db w) = Some tk"
    and api: "api_replies w = r1 # r2 # rest" and r1: "status r1 = 401"
    and tok: "token_replies w = t # ts" and t: "ok t" "body t = Json data"
    and a: "data_access_token data = Some a"
  shows "salesforceApiCall cfg endpoint meth b w =
     (finish r2,
      w\<lparr>db := updateAccessToken (clock w) (token_id tk) a (db w),
        api_replies := rest,
        token_replies := ts,
        trace := trace w @
          [CallGetTokens,
           Fetch (request_options endpoint meth b (accessToken tk) (instanceUrl tk)),
           CallRefreshAccessToken,
           CallGetTokens,
           FetchToken \<lparr>token_url = SF_LOGIN_URL cfg @ ''/services/oauth2/token'',
                       form_grant_type = ''refresh_token'',
                       form_client_id = SF_CLIENT_ID cfg,
                       form_client_secret = SF_CLIENT_SECRET cfg,
                       form_refresh_token = refreshToken tk\<rparr>,
           CallUpdateAccessToken (token_id tk) (Some a),
           CallGetTokens,
           Fetch (request_options endpoint meth b a (instanceUrl tk))]\<rparr>)"
proof -
  define q1 where "q1 = request_options endpoint meth b (accessToken tk) (instanceUrl tk)"
  define w1 where "w1 = record_event CallGetTokens w"
  define w2 where "w2 = record_event (Fetch q1) (w1\<lparr>api_replies := r2 # rest\<rparr>)"
  have cg: "call_getTokens w = (Some tk, w1)"
    by (simp add: call_getTokens_def w1_def tk)
  have mr: "makeRequest endpoint meth b (accessToken tk) (instanceUrl tk) w1 = (Inr r1, w2)"
    by (simp add: makeRequest_def fetch_def w1_def w2_def q1_def record_event_def api)
  have rf: "refreshAccessToken cfg w2 =
     (Inr \<lparr>new_accessToken = Some a,
           new_instanceUrl = or_else (data_instance_url data) (instanceUrl tk)\<rparr>,
      w2\<lparr>db := updateAccessToken (clock w2) (token_id tk) a (db w2),
        token_replies := ts,
        trace := trace w2 @
          [CallRefreshAccessToken, CallGetTokens,
           FetchToken \<lparr>token_url = SF_LOGIN_URL cfg @ ''/services/oauth2/token'',
                       form_grant_type = ''refresh_token'',
                       form_client_id = SF_CLIENT_ID cfg,
                       form_client_secret = SF_CLIENT_SECRET cfg,
                       form_refresh_token = refreshToken tk\<rparr>,
           CallUpdateAccessToken (token_id tk) (Some a)]\<rparr>)"
    by (rule refreshAccessToken_success [where t = t])
       (simp_all add: w2_def w1_def record_event_def tk tok t a)
  define w3 where "w3 = w2\<lparr>db := updateAccessToken (clock w2) (token_id tk) a (db w2),
        token_replies := ts,
        trace := trace w2 @
          [CallRefreshAccessToken, CallGetTokens,
           FetchToken \<lparr>token_url = SF_LOGIN_URL cfg @ ''/services/oauth2/token'',
                       form_grant_type = ''refresh_token'',
                       form_client_id = SF_CLIENT_ID cfg,
                       form_client_secret = SF_CLIENT_SECRET cfg,
                       form_refresh_token = refreshToken tk\<rparr>,
           CallUpdateAccessToken (token_id tk) (Some a)]\<rparr>"
  define w4 where "w4 = record_event CallGetTokens w3"
  define w5 where "w5 = record_event (Fetch (request_options endpoint meth b a (instanceUrl tk)))
      (w4\<lparr>api_replies := rest\<rparr>)"
  have "getTokens (updateAccessToken (clock w2) (token_id tk) a (db w2)) =
      Some (tk\<lparr>accessToken := a\<rparr>)"
    by (rule getTokens_updateAccessToken) (simp add: w2_def w1_def record_event_def tk)
  then have cg3: "call_getTokens w3 = (Some (tk\<lparr>accessToken := a\<rparr>), w4)"
    by (simp add: call_getTokens_def w4_def w3_def)
  have mr2: "makeRequest endpoint meth b a (instanceUrl tk) w4 = (Inr r2, w5)"
    by (simp add: makeRequest_def fetch_def w5_def w4_def w3_def w2_def w1_def record_event_def)
  have "salesforceApiCall cfg endpoint meth b w = (finish r2, w5)"
    by (simp add: salesforceApiCall_def cg mr rf [folded w3_def] r1 cg3 mr2)
  also have "w5 = w\<lparr>db := updateAccessToken (clock w) (token_id tk) a (db w),
        api_replies := rest,
        token_replies := ts,
        trace := trace w @
          [CallGetTokens,
           Fetch (request_options endpoint meth b (accessToken tk) (instanceUrl tk)),
           CallRefreshAccessToken,
           CallGetTokens,
           FetchToken \<lparr>token_url = SF_LOGIN_URL cfg @ ''/services/oauth2/token'',
                       form_grant_type = ''refresh_token'',
                       form_client_id = SF_CLIENT_ID cfg,
                       form_client_secret = SF_CLIENT_SECRET cfg,
                       form_refresh_token = refreshToken tk\<rparr>,
           CallUpdateAccessToken (token_id tk) (Some a),
           CallGetTokens,
           Fetch (request_options endpoint meth b a (instanceUrl tk))]\<rparr>"
    by (simp add: w5_def w4_def w3_def w2_def w1_def q1_def record_event_def)
  finally show ?thesis .
qed

text \<open>A store with one credential, and the responses used as examples below.\<close>

definition example_config :: config where
  "example_config =
     \<lparr>SF_CLIENT_ID = ''client'', SF_CLIENT_SECRET = ''secret'',
      SF_LOGIN_URL = ''https://login.salesforce.com''\<rparr>"

definition example_db :: database where
  "example_db =
     \<lparr>rows = [\<lparr>row_id = 1, access_token = ''AT1'', refresh_token = ''RT1'',
               instance_url = ''https://na1.salesforce.com'', created_at = 10, updated_at = 10\<rparr>],
      next_id = 2\<rparr>"

definition example_tokens :: tokens where
  "example_tokens =
     \<lparr>accessToken = ''AT1'', refreshToken = ''RT1'',
      instanceUrl = ''https://na1.salesforce.com'', token_id = 1\<rparr>"

definition example_token_data :: token_data where
  "example_token_data =
     \<lparr>data_access_token = Some ''AT2'',
      data_instance_url = Some ''https://na2.salesforce.com'',
      data_error_description = None, data_error = None\<rparr>"

definition example_token_reply :: "token_data response" where
  "example_token_reply = \<lparr>status = 200, body = Json example_token_data\<rparr>"

definition example_world :: "json response list \<Rightarrow> world" where
  "example_world replies =
     \<lparr>db = example_db, clock = 50, api_replies = replies,
      token_replies = [example_token_reply], trace = []\<rparr>"

definition reply_401 :: "json response" where
  "reply_401 = \<lparr>status = 401, body = NotJson ''Session expired or invalid''\<rparr>"

definition reply_403 :: "json response" where
  "reply_403 =
     \<lparr>status = 403, body = Json (JArr [JObj [(''errorCode'', JStr ''REQUEST_LIMIT_EXCEEDED'')]])\<rparr>"


definition reply_200 :: "json response" where
  "reply_200 = \<lparr>status = 200, body = Json (JObj [(''totalSize'', JNum 0)])\<rparr>"


lemma example_world_fields:
  "db (example_world rs) = example_db" "clock (example_world rs) = 50"
  "api_replies (example_world rs) = rs" "token_replies (example_world rs) = [example_token_reply]"
  "trace (example_world rs) = []"
  by (simp_all add: example_world_def)

lemma example_getTokens: "getTokens (db (example_world rs)) = Some example_tokens"
  by (simp add: getTokens_def example_db_def example_tokens_def example_world_def)

lemma example_token_reply_facts:
  "ok example_token_reply" "body example_token_reply = Json example_token_data"
  "data_access_token example_token_data = Some ''AT2''"
  by (simp_all add: example_token_reply_def example_token_data_def ok_def)

lemmas example_refresh =
  example_getTokens example_world_fields(4) example_token_reply_facts

subsection \<open>What a refresh stores\<close>

text \<open>
  C1, as amended: every successful \<open>refresh()\<close> had a stored credential and an ok
  response of the token endpoint with an access token; it returns that access token with
  \<open>data.instance_url || tokens.instanceUrl\<close>, and in the store it changes the access
  token only: afterwards \<open>current()\<close> is the credential as it was, under the same id and
  with the same refresh token and the same instance URL, holding the new access token.
  The instance URL of the response goes to the caller, not to the store.
\<close>

theorem refresh_stores_access_token_only:
  assumes "fst (refreshAccessToken cfg w) = Inr nt"
  shows "\<exists>tk t ts data a.
           getTokens (db w) = Some tk \<and> token_replies w = t # ts \<and> ok t \<and> body t = Json data
         \<and> data_access_token data = Some a
         \<and> nt = \<lparr>new_accessToken = Some a,
                  new_instanceUrl = or_else (data_instance_url data) (instanceUrl tk)\<rparr>
         \<and> getTokens (db (snd (refreshAccessToken cfg w))) = Some (tk\<lparr>accessToken := a\<rparr>)
         \<and> map instance_url (rows (db (snd (refreshAccessToken cfg w)))) =
             map instance_url (rows (db w))
         \<and> map refresh_token (rows (db (snd (refreshAccessToken cfg w)))) =
             map refresh_token (rows (db w))"
proof -
  from refreshAccessToken_Inr [OF assms] obtain tk t ts data a where
    h: "getTokens (db w) = Some tk" "token_replies w = t # ts" "ok t" "body t = Json data"
       "data_access_token data = Some a"
    by blast
  note eq = refreshAccessToken_success [OF h, of cfg]
  have "getTokens (db (snd (refreshAccessToken cfg w))) = Some (tk\<lparr>accessToken := a\<rparr>)"
    by (simp add: eq getTokens_updateAccessToken [OF h(1)])
  moreover have "map instance_url (rows (db (snd (refreshAccessToken cfg w)))) =
      map instance_url (rows (db w))"
    and "map refresh_token (rows (db (snd (refreshAccessToken cfg w)))) =
      map refresh_token (rows (db w))"
    by (simp_all add: eq updateAccessToken_def comp_def)
  moreover have "nt = \<lparr>new_accessToken = Some a,
      new_instanceUrl = or_else (data_instance_url data) (instanceUrl tk)\<rparr>"
    using assms by (simp add: eq)
  ultimately show ?thesis using h by blast
qed

theorem refresh_stores_access_token_only_witness:
  "fst (refreshAccessToken example_config (example_world [])) =
     Inr \<lparr>new_accessToken = Some ''AT2'', new_instanceUrl = ''https://na2.salesforce.com''\<rparr>
   \<and> map instance_url (rows (db (snd (refreshAccessToken example_config (example_world []))))) =
       [''https://na1.salesforce.com'']
   \<and> map refresh_token (rows (db (snd (refreshAccessToken example_config (example_world []))))) =
       [''RT1'']"
proof -
  have r: "fst (refreshAccessToken example_config (example_world [])) =
     Inr \<lparr>new_accessToken = Some ''AT2'', new_instanceUrl = ''https://na2.salesforce.com''\<rparr>"
    by (simp add: refreshAccessToken_success [OF example_refresh] example_token_data_def
        or_else_def)
  from refresh_stores_access_token_only [OF r] show ?thesis
    using r by (auto simp: example_world_def example_db_def)
qed

text \<open>
  C1 as the specification states it fails: the response carries the instance URL
  \<open>https://na2.salesforce.com\<close>, the refresh succeeds, and the stored credential still
  has \<open>https://na1.salesforce.com\<close>.
\<close>

theorem refresh_keeps_stored_instance_url:
  "fst (refreshAccessToken example_config (example_world [])) =
     Inr \<lparr>new_accessToken = Some ''AT2'', new_instanceUrl = ''https://na2.salesforce.com''\<rparr>
   \<and> getTokens (db (snd (refreshAccessToken example_config (example_world [])))) =
       Some \<lparr>accessToken = ''AT2'', refreshToken = ''RT1'',
             instanceUrl = ''https://na1.salesforce.com'', token_id = 1\<rparr>
   \<and> map_option instanceUrl
         (getTokens (db (snd (refreshAccessToken example_config (example_world [])))))
       \<noteq> Some ''https://na2.salesforce.com''"
proof -
  have "getTokens (updateAccessToken 50 1 ''AT2'' example_db) =
       Some \<lparr>accessToken = ''AT2'', refreshToken = ''RT1'',
             instanceUrl = ''https://na1.salesforce.com'', token_id = 1\<rparr>"
    by (simp add: getTokens_def updateAccessToken_def example_db_def)
  then show ?thesis
    by (simp add: refreshAccessToken_success [OF example_refresh] example_token_data_def
        or_else_def example_world_fields example_tokens_def)
qed

subsection \<open>The retry policy\<close>

text \<open>
  C2: when the first request is answered 401, the refresh succeeds, and the retried
  request is answered with a status that is not ok, the call fails with the API error
  carrying the status of the retried response and its body: the parsed value when the
  body is JSON, the object \<open>{ message: text }\<close> when it is text that does not parse.
  \<open>refreshAccessToken\<close> was entered exactly once during the call: the trace of the call
  is the first request, the one refresh, and the second request, after which the call
  ends.
\<close>

theorem retry_failure_propagates:
  assumes "getTokens (db w) = Some tk"
    and "api_replies w = r1 # r2 # rest" and "status r1 = 401"
    and "token_replies w = t # ts" and "ok t" and "body t = Json data"
    and "data_access_token data = Some a"
    and "\<not> ok r2"
  shows "(\<forall>j. body r2 = Json j \<longrightarrow>
            fst (salesforceApiCall cfg endpoint meth b w) =
              Inl (SalesforceApiError (status r2) j))
       \<and> (\<forall>txt. body r2 = NotJson txt \<longrightarrow>
            fst (salesforceApiCall cfg endpoint meth b w) =
              Inl (SalesforceApiError (status r2) (JObj [(''message'', JStr txt)])))
       \<and> count_list (events_of w (snd (salesforceApiCall cfg endpoint meth b w)))
           CallRefreshAccessToken = 1
       \<and> trace (snd (salesforceApiCall cfg endpoint meth b w)) = trace w @
           [CallGetTokens,
            Fetch (request_options endpoint meth b (accessToken tk) (instanceUrl tk)),
            CallRefreshAccessToken,
            CallGetTokens,
            FetchToken \<lparr>token_url = SF_LOGIN_URL cfg @ ''/services/oauth2/token'',
                        form_grant_type = ''refresh_token'',
                        form_client_id = SF_CLIENT_ID cfg,
                        form_client_secret = SF_CLIENT_SECRET cfg,
                        form_refresh_token = refreshToken tk\<rparr>,
            CallUpdateAccessToken (token_id tk) (Some a),
            CallGetTokens,
            Fetch (request_options endpoint meth b a (instanceUrl tk))]"
  using assms(8)
  by (simp add: salesforceApiCall_retry [OF assms(1-7)] finish_def events_of_def errorData_of_def)

theorem retry_failure_propagates_witness:
  "status reply_401 = 401 \<and> \<not> ok reply_401 \<and> \<not> ok reply_403
   \<and> fst (salesforceApiCall example_config ''/services/data/v59.0/query?q=x'' ''GET'' None
        (example_world [reply_401, reply_401])) =
       Inl (SalesforceApiError 401 (JObj [(''message'', JStr ''Session expired or invalid'')]))
   \<and> fst (salesforceApiCall example_config ''/services/data/v59.0/query?q=x'' ''GET'' None
        (example_world [reply_401, reply_403])) =
       Inl (SalesforceApiError 403
             (JArr [JObj [(''errorCode'', JStr ''REQUEST_LIMIT_EXCEEDED'')]]))
   \<and> count_list (events_of (example_world [reply_401, reply_401])
        (snd (salesforceApiCall example_config ''/services/data/v59.0/query?q=x'' ''GET'' None
          (example_world [reply_401, reply_401])))) CallRefreshAccessToken = 1"
proof -
  have h: "status reply_401 = 401" "\<not> ok reply_401" "\<not> ok reply_403"
    by (simp_all add: reply_401_def reply_403_def ok_def)
  note text_body = retry_failure_propagates [OF example_getTokens example_world_fields(3) h(1)
      example_world_fields(4) example_token_reply_facts h(2),
      where rest = "[]" and cfg = example_config and endpoint = "''/services/data/v59.0/query?q=x''"
        and meth = "''GET''" and b = None]
  note json_body = retry_failure_propagates [OF example_getTokens example_world_fields(3) h(1)
      example_world_fields(4) example_token_reply_facts h(3),
      where rest = "[]" and cfg = example_config and endpoint = "''/services/data/v59.0/query?q=x''"
        and meth = "''GET''" and b = None]
  from text_body json_body h show ?thesis
    by (simp add: reply_401_def reply_403_def)
qed




subsection \<open>The request body\<close>

text \<open>
  C10: in a call with a non-null body, every API request the call sends, the first and
  the retry alike, carries the body exactly when the body is truthy and the method is
  \<open>POST\<close> or \<open>PATCH\<close>; so a request carries a body only with one of these two methods,
  and with any other method no request of the call carries one.
\<close>

theorem body_sent_only_for_post_and_patch:
  "list_all (\<lambda>q. request_body q =
        (if truthy j \<and> (meth = ''POST'' \<or> meth = ''PATCH'') then Some j else None))
     (requests_of (events_of w (snd (salesforceApiCall cfg endpoint meth (Some j) w))))
   \<and> list_all (\<lambda>q. request_body q \<noteq> None \<longrightarrow> meth = ''POST'' \<or> meth = ''PATCH'')
     (requests_of (events_of w (snd (salesforceApiCall cfg endpoint meth (Some j) w))))
   \<and> (meth \<noteq> ''POST'' \<and> meth \<noteq> ''PATCH'' \<longrightarrow>
        list_all (\<lambda>q. request_body q = None)
          (requests_of (events_of w (snd (salesforceApiCall cfg endpoint meth (Some j) w)))))"
proof -
  from salesforceApiCall_trace [of cfg endpoint meth "Some j" w] obtain es where
    es: "trace (snd (salesforceApiCall cfg endpoint meth (Some j) w)) = trace w @ es"
    and built: "list_all (built_for meth (Some j)) (requests_of es)"
    by blast
  have ev: "events_of w (snd (salesforceApiCall cfg endpoint meth (Some j) w)) = es"
    by (rule events_of_append) (rule es)
  from built show ?thesis
    unfolding ev by (auto simp: list_all_iff body_truthy_def dest!: built_for_body)
qed

theorem body_sent_only_for_post_and_patch_witness:
  "''DELETE'' \<noteq> ''POST'' \<and> ''DELETE'' \<noteq> ''PATCH''
   \<and> map request_body (requests_of (events_of (example_world [reply_401, reply_200])
        (snd (salesforceApiCall example_config ''/services/data/v59.0/sobjects/Account/001''
          ''DELETE'' (Some (JObj [(''Name'', JStr ''Acme'')]))
          (example_world [reply_401, reply_200]))))) = [None, None]"
proof -
  let ?w = "example_world [reply_401, reply_200]"
  let ?call = "salesforceApiCall example_config ''/services/data/v59.0/sobjects/Account/001''
          ''DELETE'' (Some (JObj [(''Name'', JStr ''Acme'')])) ?w"
  have "status reply_401 = 401"
    by (simp add: reply_401_def)
  note eq = salesforceApiCall_retry [OF example_getTokens example_world_fields(3) this
      example_world_fields(4) example_token_reply_facts]
  have len: "length (requests_of (events_of ?w (snd ?call))) = 2"
    by (simp add: eq events_of_def example_world_fields)
  from body_sent_only_for_post_and_patch [of "JObj [(''Name'', JStr ''Acme'')]" "''DELETE''" ?w
      example_config "''/services/data/v59.0/sobjects/Account/001''"]
  have "list_all (\<lambda>q. request_body q = None) (requests_of (events_of ?w (snd ?call)))"
    by simp
  with len have "map request_body (requests_of (events_of ?w (snd ?call))) = [None, None]"
    by (auto simp: list_all_iff length_Suc_conv numeral_2_eq_2)
  then show ?thesis by simp
qed

end
